theory Spec2Isabelle
  imports Main "HOL-Library.AList"
begin

section \<open>JavaScript values, objects and the object store\<close>

text \<open>
  The tree that \<open>parse\<close> builds is a graph of plain JavaScript objects that the handlers
  mutate through references kept on \<open>elementsStack\<close>. The embedding keeps that aliasing:
  every object created by an object literal \<open>{ name: ..., attr: ... }\<close> (and \<open>jsonObj\<close>
  itself) lives in a store at an address, and a property that holds such an object holds
  \<open>JRef\<close> of its address. The attribute object that the lexer hands over
  (\<open>tag.attributes\<close>) and the arrays created by the promotion of repeated children are
  never reached through a second reference that is written to, so they are kept as values
  (\<open>JAttrs\<close>, \<open>JArr\<close>). \<open>JBuiltin k\<close> is the built-in function that an object inherits
  under the member name \<open>k\<close> (for instance \<open>Object.prototype.constructor\<close>);
  \<open>JObjectPrototype\<close> and \<open>JArrayPrototype\<close> are the objects \<open>Object.prototype\<close> and
  \<open>Array.prototype\<close>.
\<close>

datatype jsval =
    JUndefined
  | JNull
  | JBool bool
  | JNum int
  | JStr string
  | JBuiltin string
  | JObjectPrototype
  | JArrayPrototype
  | JAttrs "(string \<times> string) list"
  | JRef nat
  | JArr "jsval list"

text \<open>
  An object of the store: its own properties in insertion order, and its prototype, which
  an assignment to \<open>__proto__\<close> rebinds.
\<close>

record obj =
  props :: "(string \<times> jsval) list"
  proto :: jsval

type_synonym store = "obj list"

text \<open>The object that an object literal with these properties creates.\<close>

definition plain :: "(string \<times> jsval) list \<Rightarrow> obj" where
  "plain ps = \<lparr>props = ps, proto = JObjectPrototype\<rparr>"

fun typeof :: "jsval \<Rightarrow> string" where
  "typeof JUndefined = ''undefined''"
| "typeof JNull = ''object''"
| "typeof (JBool b) = ''boolean''"
| "typeof (JNum i) = ''number''"
| "typeof (JStr x) = ''string''"
| "typeof (JBuiltin k) = ''function''"
| "typeof JObjectPrototype = ''object''"
| "typeof JArrayPrototype = ''object''"
| "typeof (JAttrs al) = ''object''"
| "typeof (JRef p) = ''object''"
| "typeof (JArr xs) = ''object''"

text \<open>\<open>Array.isArray\<close>; \<open>Array.prototype\<close> is an array too.\<close>

fun is_array :: "jsval \<Rightarrow> bool" where
  "is_array (JArr xs) = True"
| "is_array JArrayPrototype = True"
| "is_array v = False"

text \<open>What the setter of \<open>__proto__\<close> accepts as a prototype: an object or \<open>null\<close>.\<close>

definition prototype_value :: "jsval \<Rightarrow> bool" where
  "prototype_value v \<longleftrightarrow> typeof v = ''object'' \<or> typeof v = ''function''"

subsection \<open>Members and the prototype chain\<close>

text \<open>
  The operator \<open>in\<close> and a property read look through the prototype chain. The names
  are those of ECMAScript's \<open>Object.prototype\<close> and \<open>Array.prototype\<close>. Every member of
  the two is a function, but \<open>__proto__\<close>, which is an accessor: read, it gives the
  prototype of the object it is read from; assigned, it rebinds that prototype.
\<close>

definition Object_prototype_keys :: "string list" where
  "Object_prototype_keys =
     [''constructor'', ''__defineGetter__'', ''__defineSetter__'', ''hasOwnProperty'',
      ''__lookupGetter__'', ''__lookupSetter__'', ''isPrototypeOf'',
      ''propertyIsEnumerable'', ''toString'', ''valueOf'', ''__proto__'',
      ''toLocaleString'']"

definition Array_prototype_keys :: "string list" where
  "Array_prototype_keys =
     [''at'', ''concat'', ''copyWithin'', ''entries'', ''every'', ''fill'', ''filter'',
      ''find'', ''findIndex'', ''findLast'', ''findLastIndex'', ''flat'', ''flatMap'',
      ''forEach'', ''includes'', ''indexOf'', ''join'', ''keys'', ''lastIndexOf'', ''map'',
      ''pop'', ''push'', ''reduce'', ''reduceRight'', ''reverse'', ''shift'', ''slice'',
      ''some'', ''sort'', ''splice'', ''toReversed'', ''toSorted'', ''toSpliced'',
      ''unshift'', ''values'', ''with'']"

datatype member = Data jsval | ProtoAccessor

definition object_prototype_member :: "string \<Rightarrow> member option" where
  "object_prototype_member k =
     (if k = ''__proto__'' then Some ProtoAccessor
      else if k \<in> set Object_prototype_keys then Some (Data (JBuiltin k))
      else None)"

text \<open>\<open>Array.prototype\<close> is itself an array, of length 0.\<close>

definition array_prototype_member :: "string \<Rightarrow> member option" where
  "array_prototype_member k =
     (if k \<in> set Array_prototype_keys then Some (Data (JBuiltin k))
      else if k = ''length'' then Some (Data (JNum 0))
      else object_prototype_member k)"

text \<open>
  A property name is an index of an array when it is the canonical decimal numeral of the
  index.
\<close>

definition array_index :: "string \<Rightarrow> nat option" where
  "array_index k =
     (if k \<noteq> [] \<and> (\<forall>c \<in> set k. c \<in> set ''0123456789'') \<and> (k = ''0'' \<or> hd k \<noteq> CHR ''0'')
      then Some (foldl (\<lambda>n c. 10 * n + (of_char c - 48)) 0 k)
      else None)"

definition array_member :: "jsval list \<Rightarrow> string \<Rightarrow> member option" where
  "array_member xs k =
     (case array_index k of
        Some i \<Rightarrow> if i < length xs then Some (Data (xs ! i)) else None
      | None \<Rightarrow>
          if k = ''length'' then Some (Data (JNum (int (length xs))))
          else array_prototype_member k)"

definition attrs_member :: "(string \<times> string) list \<Rightarrow> string \<Rightarrow> member option" where
  "attrs_member al k =
     (case map_of al k of
        Some v \<Rightarrow> Some (Data (JStr v))
      | None \<Rightarrow> object_prototype_member k)"

text \<open>
  What stops a call: a \<open>TypeError\<close> of the runtime, an \<open>Error\<close> thrown by the source
  with its message, and \<open>Unmodelled\<close> where the embedding does not follow the runtime:
  a reference to an address outside the store, a prototype chain that does not end within
  as many steps as the store has objects, a function or a primitive value as a prototype,
  a property other than \<open>attr\<close> read from a primitive value or a function, \<open>in\<close> applied
  to a function, and \<open>push\<close> on a value that is not one of the arrays the handlers
  create. No sequence of events leads \<open>parse\<close> there (\<open>run_init_modelled\<close> below).
\<close>

datatype halt = TypeError | Thrown string | Unmodelled

text \<open>
  The member \<open>k\<close> of an object that is not in the store, own or inherited; \<open>null\<close> ends
  a chain.
\<close>

fun builtin_lookup :: "jsval \<Rightarrow> string \<Rightarrow> halt + member option" where
  "builtin_lookup (JArr xs) k = Inr (array_member xs k)"
| "builtin_lookup (JAttrs al) k = Inr (attrs_member al k)"
| "builtin_lookup JObjectPrototype k = Inr (object_prototype_member k)"
| "builtin_lookup JArrayPrototype k = Inr (array_prototype_member k)"
| "builtin_lookup JNull k = Inr None"
| "builtin_lookup v k = Inl Unmodelled"

text \<open>
  The member \<open>k\<close> of the object at address \<open>p\<close>: an own property, or what the prototype
  chain gives. The first argument bounds the number of store objects on the chain.
\<close>

fun find_member :: "nat \<Rightarrow> store \<Rightarrow> nat \<Rightarrow> string \<Rightarrow> halt + member option" where
  "find_member 0 h p k =
     (if length h \<le> p then Inl Unmodelled
      else case map_of (props (h ! p)) k of
             Some v \<Rightarrow> Inr (Some (Data v))
           | None \<Rightarrow> (case proto (h ! p) of
                        JRef q \<Rightarrow> Inl Unmodelled
                      | v \<Rightarrow> builtin_lookup v k))"
| "find_member (Suc n) h p k =
     (if length h \<le> p then Inl Unmodelled
      else case map_of (props (h ! p)) k of
             Some v \<Rightarrow> Inr (Some (Data v))
           | None \<Rightarrow> (case proto (h ! p) of
                        JRef q \<Rightarrow> find_member n h q k
                      | v \<Rightarrow> builtin_lookup v k))"

text \<open>The value of a member read from an object whose prototype is \<open>pr\<close>.\<close>

definition member_value :: "jsval \<Rightarrow> member option \<Rightarrow> jsval" where
  "member_value pr m =
     (case m of None \<Rightarrow> JUndefined | Some (Data v) \<Rightarrow> v | Some ProtoAccessor \<Rightarrow> pr)"

text \<open>
  \<open>k in x\<close>: defined on objects only; on \<open>undefined\<close>, \<open>null\<close> and the primitive values
  the runtime throws a \<open>TypeError\<close>.
\<close>

fun js_in :: "store \<Rightarrow> string \<Rightarrow> jsval \<Rightarrow> halt + bool" where
  "js_in h k (JRef p) =
     (case find_member (length h) h p k of Inl e \<Rightarrow> Inl e | Inr m \<Rightarrow> Inr (m \<noteq> None))"
| "js_in h k (JAttrs al) = Inr (attrs_member al k \<noteq> None)"
| "js_in h k (JArr xs) = Inr (array_member xs k \<noteq> None)"
| "js_in h k JObjectPrototype = Inr (object_prototype_member k \<noteq> None)"
| "js_in h k JArrayPrototype = Inr (array_prototype_member k \<noteq> None)"
| "js_in h k (JBuiltin b) = Inl Unmodelled"
| "js_in h k JUndefined = Inl TypeError"
| "js_in h k JNull = Inl TypeError"
| "js_in h k (JBool b) = Inl TypeError"
| "js_in h k (JNum i) = Inl TypeError"
| "js_in h k (JStr x) = Inl TypeError"

text \<open>
  \<open>x[k]\<close> read: a \<open>TypeError\<close> on \<open>undefined\<close> and \<open>null\<close>. The source reads from a
  primitive value or a function only the property \<open>attr\<close>, which none of them has.
\<close>

fun js_get :: "store \<Rightarrow> jsval \<Rightarrow> string \<Rightarrow> halt + jsval" where
  "js_get h JUndefined k = Inl TypeError"
| "js_get h JNull k = Inl TypeError"
| "js_get h (JRef p) k =
     (case find_member (length h) h p k of
        Inl e \<Rightarrow> Inl e
      | Inr m \<Rightarrow> Inr (member_value (proto (h ! p)) m))"
| "js_get h (JAttrs al) k = Inr (member_value JObjectPrototype (attrs_member al k))"
| "js_get h (JArr xs) k = Inr (member_value JArrayPrototype (array_member xs k))"
| "js_get h JObjectPrototype k = Inr (member_value JNull (object_prototype_member k))"
| "js_get h JArrayPrototype k = Inr (member_value JObjectPrototype (array_prototype_member k))"
| "js_get h v k = (if k = ''attr'' then Inr JUndefined else Inl Unmodelled)"

text \<open>
  \<open>o[k] = v\<close> for the object \<open>o\<close> at address \<open>p\<close>. An own property is overwritten where
  it is and a new one is appended; the members an object can inherit here are writable, so
  they do not stand in the way. The one exception is \<open>__proto__\<close>: where the object has
  no own property of that name and inherits the accessor, the assignment rebinds the
  prototype when the value is an object or \<open>null\<close>, and does nothing otherwise. (The
  handlers assign only arrays and objects they have just created; the runtime's refusal of
  a prototype that leads back to the object is left out.)
\<close>

definition js_set :: "store \<Rightarrow> nat \<Rightarrow> string \<Rightarrow> jsval \<Rightarrow> halt + store" where
  "js_set h p k v =
     (if length h \<le> p then Inl Unmodelled
      else if k = ''__proto__'' then
        (case find_member (length h) h p k of
           Inl e \<Rightarrow> Inl e
         | Inr m \<Rightarrow>
             if m = Some ProtoAccessor
             then Inr (if prototype_value v then h[p := (h ! p)\<lparr>proto := v\<rparr>] else h)
             else Inr (h[p := (h ! p)\<lparr>props := AList.update k v (props (h ! p))\<rparr>]))
      else Inr (h[p := (h ! p)\<lparr>props := AList.update k v (props (h ! p))\<rparr>]))"

text \<open>\<open>delete o[k]\<close> removes an own property and does nothing otherwise.\<close>

definition js_delete :: "store \<Rightarrow> nat \<Rightarrow> string \<Rightarrow> store" where
  "js_delete h p k = h[p := (h ! p)\<lparr>props := AList.delete k (props (h ! p))\<rparr>]"

text \<open>
  \<open>o[k].push(x)\<close> where \<open>o[k]\<close> is an array. The arrays are kept as values where they
  are stored, so the push is written there: into the own property \<open>k\<close>, or, when
  \<open>o[k]\<close> reads the prototype through the accessor \<open>__proto__\<close>, into the prototype.
\<close>

definition js_push :: "store \<Rightarrow> nat \<Rightarrow> string \<Rightarrow> jsval \<Rightarrow> halt + store" where
  "js_push h p k x =
     (if length h \<le> p then Inl Unmodelled
      else case map_of (props (h ! p)) k of
             Some v \<Rightarrow>
               (case v of
                  JArr xs \<Rightarrow>
                    Inr (h[p := (h ! p)\<lparr>props := AList.update k (JArr (xs @ [x])) (props (h ! p))\<rparr>])
                | _ \<Rightarrow> Inl Unmodelled)
           | None \<Rightarrow>
               if find_member (length h) h p k = Inr (Some ProtoAccessor)
               then (case proto (h ! p) of
                       JArr xs \<Rightarrow> Inr (h[p := (h ! p)\<lparr>proto := JArr (xs @ [x])\<rparr>])
                     | _ \<Rightarrow> Inl Unmodelled)
               else Inl Unmodelled)"

definition then_do :: "halt + 'a \<Rightarrow> ('a \<Rightarrow> halt + 'b) \<Rightarrow> halt + 'b" where
  "then_do r f = (case r of Inl e \<Rightarrow> Inl e | Inr x \<Rightarrow> f x)"

section \<open>The lexical events and the state of one parse call\<close>

text \<open>
  The lexer (the \<open>sax\<close> package) is not part of the repository. It calls the handlers that
  \<open>parse\<close> registers, in the order of the document; the embedding takes that sequence of
  calls as a list of events. \<open>OpenTag\<close> carries \<open>tag.name\<close> and \<open>tag.attributes\<close>.
\<close>

datatype event =
    OpenTag string "(string \<times> string) list"
  | Text string
  | CDataStart
  | CDataChunk string
  | CDataEnd
  | CloseTag
  | End
  | Error string

text \<open>
  The variables that the handlers close over: the store with \<open>jsonObj\<close> at address 0,
  \<open>elementsStack\<close> (its top is the head of the list), \<open>cdata\<close>, and the calls of
  \<open>callback\<close> made so far, each with the store as it is at the call. A stopped call keeps
  the calls of \<open>callback\<close> made before it stopped.
\<close>

record pstate =
  heap :: store
  elementsStack :: "nat list"
  cdata :: string
  delivered :: "store list"

type_synonym outcome = "(halt \<times> store list) + pstate"

definition init :: pstate where
  "init = \<lparr>heap = [plain []], elementsStack = [], cdata = [], delivered = []\<rparr>"

definition new_element :: "string \<Rightarrow> (string \<times> string) list \<Rightarrow> obj" where
  "new_element tagName tagAttributes =
     plain [(''name'', JStr tagName), (''attr'', JAttrs tagAttributes)]"

text \<open>The state after the writes of a handler, or the stop.\<close>

definition written :: "pstate \<Rightarrow> nat list \<Rightarrow> halt + store \<Rightarrow> outcome" where
  "written s stack r =
     (case r of
        Inl e \<Rightarrow> Inl (e, delivered s)
      | Inr h \<Rightarrow> Inr (s\<lparr>heap := h, elementsStack := stack\<rparr>))"

section \<open>The handlers of \<open>parse\<close>\<close>

text \<open>
  \<open>onopentag\<close>. The new element gets the next free address \<open>length (heap s)\<close>. With
  \<open>jsonObj\<close> non-empty the parent is popped from the stack (popping the empty stack gives
  \<open>undefined\<close>, and \<open>tagName in undefined\<close> is a \<open>TypeError\<close>); then the three branches
  of the source: push onto an existing array; or save the value, delete the property,
  assign a new array and push the saved value and the new element; or assign the new
  element. The element pushed onto the stack last is in each branch the new one.
\<close>

definition onopentag :: "string \<Rightarrow> (string \<times> string) list \<Rightarrow> pstate \<Rightarrow> outcome" where
  "onopentag tagName tagAttributes s =
     (let a = length (heap s);
          h = heap s @ [new_element tagName tagAttributes]
      in
        if props (heap s ! 0) \<noteq> [] then
          (case elementsStack s of
             [] \<Rightarrow> Inl (TypeError, delivered s)
           | p # rest \<Rightarrow>
               (case js_in (heap s) tagName (JRef p) of
                  Inl e \<Rightarrow> Inl (e, delivered s)
                | Inr True \<Rightarrow>
                    (case js_get (heap s) (JRef p) tagName of
                       Inl e \<Rightarrow> Inl (e, delivered s)
                     | Inr elementTmp \<Rightarrow>
                         if is_array elementTmp
                         then written s (a # p # rest) (js_push h p tagName (JRef a))
                         else written s (a # p # rest)
                                (then_do (js_set (js_delete h p tagName) p tagName (JArr []))
                                   (\<lambda>h1. then_do (js_push h1 p tagName elementTmp)
                                      (\<lambda>h2. js_push h2 p tagName (JRef a)))))
                | Inr False \<Rightarrow>
                    written s (a # p # rest) (js_set h p tagName (JRef a))))
        else
          written s (a # elementsStack s) (js_set h 0 tagName (JRef a)))"

text \<open>
  \<open>ontext\<close> and \<open>onclosecdata\<close> pop the top element, assign its \<open>innerText\<close> and push it
  back; on the empty stack the assignment is to \<open>undefined\<close>, a \<open>TypeError\<close>.
\<close>

definition ontext :: "string \<Rightarrow> pstate \<Rightarrow> outcome" where
  "ontext text s =
     (case elementsStack s of
        [] \<Rightarrow> Inl (TypeError, delivered s)
      | e # rest \<Rightarrow> written s (e # rest) (js_set (heap s) e ''innerText'' (JStr text)))"

definition onopencdata :: "pstate \<Rightarrow> outcome" where
  "onopencdata s = Inr (s\<lparr>cdata := []\<rparr>)"

definition oncdata :: "string \<Rightarrow> pstate \<Rightarrow> outcome" where
  "oncdata text s = Inr (s\<lparr>cdata := cdata s @ text\<rparr>)"

definition onclosecdata :: "pstate \<Rightarrow> outcome" where
  "onclosecdata s =
     (case elementsStack s of
        [] \<Rightarrow> Inl (TypeError, delivered s)
      | e # rest \<Rightarrow>
          written (s\<lparr>cdata := []\<rparr>) (e # rest)
            (js_set (heap s) e ''innerText'' (JStr (cdata s))))"

text \<open>\<open>onclosetag\<close> pops; popping the empty stack does nothing.\<close>

definition onclosetag :: "pstate \<Rightarrow> outcome" where
  "onclosetag s =
     (case elementsStack s of
        [] \<Rightarrow> Inr s
      | e # rest \<Rightarrow> Inr (s\<lparr>elementsStack := rest\<rparr>))"

definition onend :: "pstate \<Rightarrow> outcome" where
  "onend s = Inr (s\<lparr>delivered := delivered s @ [heap s]\<rparr>)"

text \<open>\<open>onerror\<close> writes to the console and resumes the lexer; the state is as before.\<close>

definition onerror :: "string \<Rightarrow> pstate \<Rightarrow> outcome" where
  "onerror error s = Inr s"

fun handle :: "pstate \<Rightarrow> event \<Rightarrow> outcome" where
  "handle s (OpenTag tagName tagAttributes) = onopentag tagName tagAttributes s"
| "handle s (Text text) = ontext text s"
| "handle s CDataStart = onopencdata s"
| "handle s (CDataChunk text) = oncdata text s"
| "handle s CDataEnd = onclosecdata s"
| "handle s CloseTag = onclosetag s"
| "handle s End = onend s"
| "handle s (Error error) = onerror error s"

text \<open>The handlers run in the order of the events; an exception ends the call.\<close>

fun run :: "pstate \<Rightarrow> event list \<Rightarrow> outcome" where
  "run s [] = Inr s"
| "run s (e # es) = (case handle s e of Inl h \<Rightarrow> Inl h | Inr s' \<Rightarrow> run s' es)"

text \<open>
  \<open>parse(xmlSource, callback)\<close>: \<open>sax\<close> stands for the lexer as configured in the source,
  giving the events of \<open>parser.write(xmlSource).close()\<close>.
\<close>

definition parse :: "(string \<Rightarrow> event list) \<Rightarrow> string \<Rightarrow> outcome" where
  "parse sax xmlSource = run init (sax xmlSource)"

definition callbacks :: "outcome \<Rightarrow> store list" where
  "callbacks r = (case r of Inl (h, d) \<Rightarrow> d | Inr s \<Rightarrow> delivered s)"

text \<open>
  \<open>parseFromFile(filePath, callback)\<close>: \<open>readFile\<close> stands for \<open>fs.readFile\<close>, which
  calls its continuation with an error or with the data.
\<close>

datatype read_result = ReadError string | ReadData string

definition parseFromFile ::
  "(string \<Rightarrow> read_result) \<Rightarrow> (string \<Rightarrow> event list) \<Rightarrow> string \<Rightarrow> outcome" where
  "parseFromFile readFile sax filePath =
     (case readFile filePath of
        ReadData data \<Rightarrow> parse sax data
      | ReadError error \<Rightarrow> Inl (Thrown (''An error occurred: '' @ error), []))"

section \<open>Reading the delivered tree\<close>

text \<open>
  The value that \<open>callback\<close> receives is the object graph below \<open>jsonObj\<close>. \<open>read_tree\<close>
  follows the references from a value and gives the tree of the own properties, which is
  what a serialization of the value shows; the first argument bounds the number of
  references on a path, and a store with \<open>n\<close> objects and no cycle is read in full with
  the bound \<open>n\<close>.
\<close>

datatype tree =
    TUndefined
  | TNull
  | TBool bool
  | TNum int
  | TStr string
  | TBuiltin string
  | TObj "(string \<times> tree) list"
  | TArr "tree list"

fun read_tree :: "nat \<Rightarrow> store \<Rightarrow> jsval \<Rightarrow> tree option" where
  "read_tree n h JUndefined = Some TUndefined"
| "read_tree n h JNull = Some TNull"
| "read_tree n h (JBool b) = Some (TBool b)"
| "read_tree n h (JNum i) = Some (TNum i)"
| "read_tree n h (JStr x) = Some (TStr x)"
| "read_tree n h (JBuiltin k) = Some (TBuiltin k)"
| "read_tree n h JObjectPrototype = Some (TBuiltin ''Object.prototype'')"
| "read_tree n h JArrayPrototype = Some (TBuiltin ''Array.prototype'')"
| "read_tree n h (JAttrs al) = Some (TObj (map (\<lambda>(k, v). (k, TStr v)) al))"
| "read_tree 0 h (JRef p) = None"
| "read_tree (Suc n) h (JRef p) =
     (if p < length h
      then map_option TObj
             (those (map (\<lambda>(k, v). map_option (Pair k) (read_tree n h v)) (props (h ! p))))
      else None)"
| "read_tree n h (JArr xs) = map_option TArr (those (map (read_tree n h) xs))"

section \<open>The accessors\<close>

text \<open>
  \<open>getElementAttr\<close> and \<open>getElementText\<close> in the revision that guards its argument
  and returns \<open>undefined\<close> for a missing value.
\<close>

definition getElementAttr :: "store \<Rightarrow> jsval \<Rightarrow> string \<Rightarrow> halt + jsval" where
  "getElementAttr h element attr =
     (if element = JUndefined \<or> element = JNull \<or> typeof element \<noteq> ''object''
      then Inr JUndefined
      else
        (case js_get h element ''attr'' of
           Inl e \<Rightarrow> Inl e
         | Inr element_attr \<Rightarrow>
             (case js_in h attr element_attr of
                Inl e \<Rightarrow> Inl e
              | Inr True \<Rightarrow> js_get h element_attr attr
              | Inr False \<Rightarrow> Inr JUndefined)))"

definition getElementText :: "store \<Rightarrow> jsval \<Rightarrow> halt + jsval" where
  "getElementText h element =
     (if element = JUndefined \<or> element = JNull \<or> typeof element \<noteq> ''object''
      then Inr JUndefined
      else
        (case js_in h ''innerText'' element of
           Inl e \<Rightarrow> Inl e
         | Inr True \<Rightarrow> js_get h element ''innerText''
         | Inr False \<Rightarrow>
             (case js_get h element ''attr'' of
                Inl e \<Rightarrow> Inl e
              | Inr element_attr \<Rightarrow>
                  (case js_in h ''text'' element_attr of
                     Inl e \<Rightarrow> Inl e
                   | Inr True \<Rightarrow> js_get h element_attr ''text''
                   | Inr False \<Rightarrow> Inr JUndefined))))"

text \<open>
  The same two accessors in the revision of \<open>src/index.js\<close>: no guard, and \<open>null\<close>
  for a missing value.
\<close>

definition getElementAttr_src :: "store \<Rightarrow> jsval \<Rightarrow> string \<Rightarrow> halt + jsval" where
  "getElementAttr_src h element attr =
     (case js_get h element ''attr'' of
        Inl e \<Rightarrow> Inl e
      | Inr element_attr \<Rightarrow>
          (case js_in h attr element_attr of
             Inl e \<Rightarrow> Inl e
           | Inr True \<Rightarrow> js_get h element_attr attr
           | Inr False \<Rightarrow> Inr JNull))"

definition getElementText_src :: "store \<Rightarrow> jsval \<Rightarrow> halt + jsval" where
  "getElementText_src h element =
     (case js_in h ''innerText'' element of
        Inl e \<Rightarrow> Inl e
      | Inr True \<Rightarrow> js_get h element ''innerText''
      | Inr False \<Rightarrow>
          (case js_get h element ''attr'' of
             Inl e \<Rightarrow> Inl e
           | Inr element_attr \<Rightarrow>
               (case js_in h ''text'' element_attr of
                  Inl e \<Rightarrow> Inl e
                | Inr True \<Rightarrow> js_get h element_attr ''text''
                | Inr False \<Rightarrow> Inr JNull)))"

section \<open>What a call delivers\<close>

definition completes :: "outcome \<Rightarrow> bool" where
  "completes r = (case r of Inl h \<Rightarrow> False | Inr s \<Rightarrow> True)"

text \<open>The trees handed to \<open>callback\<close>, one for each call of it, read from \<open>jsonObj\<close>.\<close>

definition delivered_trees :: "outcome \<Rightarrow> tree option list" where
  "delivered_trees r = map (\<lambda>h. read_tree (length h) h (JRef 0)) (callbacks r)"

text \<open>Events whose handler touches neither the tree nor the callback.\<close>

fun inert :: "event \<Rightarrow> bool" where
  "inert CDataStart = True"
| "inert (CDataChunk t) = True"
| "inert CloseTag = True"
| "inert (Error e) = True"
| "inert e = False"

section \<open>Event sequences of the documents the specification names\<close>

text \<open>
  What the lexer, configured as in \<open>parse\<close>, emits for the documents that the
  specification gives as examples. Text is reported before the markup that ends it, and
  a CDATA section as its start, its content and its end.
\<close>

definition roundtrip_source :: string where
  \<open>roundtrip_source = ''<a x="1"><b>hi</b><b>bye</b></a>''\<close>

definition roundtrip_events :: "event list" where
  "roundtrip_events =
     [OpenTag ''a'' [(''x'', ''1'')],
      OpenTag ''b'' [], Text ''hi'', CloseTag,
      OpenTag ''b'' [], Text ''bye'', CloseTag,
      CloseTag, End]"

text \<open>\<open><a><![CDATA[c]]>t</a>\<close> and \<open><a>t<![CDATA[c]]></a>\<close>.\<close>

definition cdata_then_text :: "string \<Rightarrow> string \<Rightarrow> event list" where
  "cdata_then_text c t =
     [OpenTag ''a'' [], CDataStart, CDataChunk c, CDataEnd, Text t, CloseTag, End]"

definition text_then_cdata :: "string \<Rightarrow> string \<Rightarrow> event list" where
  "text_then_cdata t c =
     [OpenTag ''a'' [], Text t, CDataStart, CDataChunk c, CDataEnd, CloseTag, End]"

section \<open>The shape of the store\<close>

text \<open>
  What holds of the store at every moment of a call. An element keeps an own \<open>attr\<close>,
  the attribute map or an array; it has no own property \<open>__proto__\<close> and none that
  holds \<open>Array.prototype\<close>; its prototype is \<open>Object.prototype\<close> or an array, created
  by a child element named \<open>__proto__\<close>, that holds no array. The prototype of \<open>jsonObj\<close>
  is \<open>Object.prototype\<close> or an element, after a root element named \<open>__proto__\<close>. The
  stack holds addresses of elements.
\<close>

definition prototype_shape :: "obj \<Rightarrow> bool" where
  "prototype_shape ob \<longleftrightarrow>
     map_of (props ob) ''__proto__'' = None \<and>
     (\<forall>k. map_of (props ob) k \<noteq> Some JArrayPrototype) \<and>
     (proto ob = JObjectPrototype \<or>
      (\<exists>xs. proto ob = JArr xs \<and> (\<forall>x \<in> set xs. \<not> is_array x)))"

definition element_shape :: "obj \<Rightarrow> bool" where
  "element_shape ob \<longleftrightarrow>
     ((\<exists>al. map_of (props ob) ''attr'' = Some (JAttrs al)) \<or>
      (\<exists>xs. map_of (props ob) ''attr'' = Some (JArr xs))) \<and>
     prototype_shape ob"

definition shape :: "pstate \<Rightarrow> bool" where
  "shape s \<longleftrightarrow>
     heap s \<noteq> [] \<and>
     (\<forall>p \<in> set (elementsStack s). 0 < p \<and> p < length (heap s)) \<and>
     (\<forall>c. 0 < c \<and> c < length (heap s) \<longrightarrow> element_shape (heap s ! c)) \<and>
     map_of (props (heap s ! 0)) ''__proto__'' = None \<and>
     (proto (heap s ! 0) = JObjectPrototype \<or>
      (\<exists>q. proto (heap s ! 0) = JRef q \<and> 0 < q \<and> q < length (heap s)))"

section \<open>Auxiliary facts\<close>

lemmas handler_defs =
  onopentag_def ontext_def onopencdata_def oncdata_def onclosecdata_def onclosetag_def
  onend_def onerror_def written_def then_do_def

lemmas object_defs =
  js_set_def js_delete_def js_push_def member_value_def new_element_def plain_def
  object_prototype_member_def array_prototype_member_def array_member_def attrs_member_def
  array_index_def prototype_value_def Object_prototype_keys_def Array_prototype_keys_def

lemma run_append:
  "run s (xs @ ys) = (case run s xs of Inl h \<Rightarrow> Inl h | Inr s' \<Rightarrow> run s' ys)"
  by (induction xs arbitrary: s) (auto split: sum.splits)

lemma inert_run:
  assumes "\<forall>e \<in> set body. inert e"
  shows "\<exists>s'. run s body = Inr s' \<and> heap s' = heap s \<and> delivered s' = delivered s"
  using assms
proof (induction body arbitrary: s)
  case Nil
  then show ?case by simp
next
  case (Cons e es)
  then have "inert e" by simp
  then have "\<exists>s1. handle s e = Inr s1 \<and> heap s1 = heap s \<and> delivered s1 = delivered s"
    by (cases e; cases "elementsStack s")
       (simp_all add: onopencdata_def oncdata_def onclosetag_def onerror_def)
  then obtain s1 where s1: "handle s e = Inr s1" "heap s1 = heap s" "delivered s1 = delivered s"
    by blast
  from Cons.prems have "\<forall>x \<in> set es. inert x" by simp
  from Cons.IH[OF this, of s1] obtain s' where
    "run s1 es = Inr s'" "heap s' = heap s1" "delivered s' = delivered s1" by blast
  with s1 show ?case by simp
qed

subsection \<open>Members that an element inherits\<close>

lemma object_prototype_accessor:
  "object_prototype_member k = Some ProtoAccessor \<longleftrightarrow> k = ''__proto__''"
  by (simp add: object_prototype_member_def)

lemma array_prototype_accessor:
  "array_prototype_member k = Some ProtoAccessor \<longleftrightarrow> k = ''__proto__''"
  by (auto simp: array_prototype_member_def object_prototype_member_def Array_prototype_keys_def)

lemma array_index_proto: "array_index ''__proto__'' = None"
  by (simp add: array_index_def)

lemma array_accessor:
  "array_member xs k = Some ProtoAccessor \<longleftrightarrow> k = ''__proto__''"
proof (cases "array_index k")
  case None
  then show ?thesis
    by (auto simp: array_member_def array_prototype_accessor)
next
  case (Some i)
  then have "k \<noteq> ''__proto__''" using array_index_proto by auto
  with Some show ?thesis by (simp add: array_member_def)
qed

lemma object_prototype_data:
  "object_prototype_member k = Some (Data v) \<Longrightarrow> \<not> is_array v"
  by (auto simp: object_prototype_member_def split: if_splits)

lemma array_prototype_data:
  "array_prototype_member k = Some (Data v) \<Longrightarrow> \<not> is_array v"
  by (auto simp: array_prototype_member_def dest: object_prototype_data split: if_splits)

lemma array_data:
  assumes "array_member xs k = Some (Data v)" "\<forall>x \<in> set xs. \<not> is_array x"
  shows "\<not> is_array v"
proof (cases "array_index k")
  case None
  with assms(1) show ?thesis
    by (auto simp: array_member_def dest: array_prototype_data split: if_splits)
next
  case (Some i)
  with assms show ?thesis
    by (auto simp: array_member_def split: if_splits)
qed

text \<open>
  The prototype of an element: \<open>Object.prototype\<close>, or an array without arrays in it.
\<close>

lemma element_inherits:
  assumes "pr = JObjectPrototype \<or> (\<exists>xs. pr = JArr xs \<and> (\<forall>x \<in> set xs. \<not> is_array x))"
  shows "\<exists>m. builtin_lookup pr k = Inr m \<and>
             (m = Some ProtoAccessor \<longleftrightarrow> k = ''__proto__'') \<and>
             (\<forall>v. m = Some (Data v) \<longrightarrow> \<not> is_array v)"
  using assms
  by (auto simp: object_prototype_accessor array_accessor
      dest: object_prototype_data array_data)

lemma find_member_direct:
  assumes "p < length h" "\<And>q. proto (h ! p) \<noteq> JRef q"
  shows "find_member n h p k =
           (case map_of (props (h ! p)) k of
              Some v \<Rightarrow> Inr (Some (Data v))
            | None \<Rightarrow> builtin_lookup (proto (h ! p)) k)"
  using assms by (cases n) (auto split: option.splits jsval.splits)

lemma prototype_shape_no_ref: "prototype_shape ob \<Longrightarrow> proto ob \<noteq> JRef q"
  by (auto simp: prototype_shape_def)

lemma element_member:
  assumes "p < length h" "prototype_shape (h ! p)"
  shows "\<exists>m. find_member n h p k = Inr m \<and>
             (m = Some ProtoAccessor \<longleftrightarrow> k = ''__proto__'') \<and>
             (\<forall>v. m = Some (Data v) \<longrightarrow> map_of (props (h ! p)) k = Some v \<or>
                    map_of (props (h ! p)) k = None \<and> \<not> is_array v) \<and>
             (\<forall>v. map_of (props (h ! p)) k = Some v \<longrightarrow> m = Some (Data v)) \<and>
             (m = None \<longrightarrow> map_of (props (h ! p)) k = None)"
proof (cases "map_of (props (h ! p)) k")
  case None
  from assms(2) have "proto (h ! p) = JObjectPrototype \<or>
      (\<exists>xs. proto (h ! p) = JArr xs \<and> (\<forall>x \<in> set xs. \<not> is_array x))"
    by (simp add: prototype_shape_def)
  from element_inherits[OF this, of k]
  obtain m where "builtin_lookup (proto (h ! p)) k = Inr m"
    "m = Some ProtoAccessor \<longleftrightarrow> k = ''__proto__''" "\<forall>v. m = Some (Data v) \<longrightarrow> \<not> is_array v"
    by blast
  with None show ?thesis
    by (simp add: find_member_direct[OF assms(1) prototype_shape_no_ref[OF assms(2)]])
next
  case (Some v)
  moreover from assms(2) have "map_of (props (h ! p)) ''__proto__'' = None"
    by (simp add: prototype_shape_def)
  ultimately show ?thesis
    by (auto simp: find_member_direct[OF assms(1) prototype_shape_no_ref[OF assms(2)]])
qed

subsection \<open>The writes of \<open>onopentag\<close> on a parent element\<close>

lemma js_set_own:
  assumes "p < length h" "k \<noteq> ''__proto__''"
  shows "js_set h p k v = Inr (h[p := (h ! p)\<lparr>props := AList.update k v (props (h ! p))\<rparr>])"
  using assms by (simp add: js_set_def)

lemma js_set_prototype:
  assumes "p < length h" "prototype_shape (h ! p)" "prototype_value v"
  shows "js_set h p ''__proto__'' v = Inr (h[p := (h ! p)\<lparr>proto := v\<rparr>])"
proof -
  from element_member[OF assms(1,2), of "length h" "''__proto__''"]
  have "find_member (length h) h p ''__proto__'' = Inr (Some ProtoAccessor)" by auto
  with assms show ?thesis by (simp add: js_set_def)
qed

lemma js_push_own:
  assumes "p < length h" "map_of (props (h ! p)) k = Some (JArr xs)"
  shows "js_push h p k x =
           Inr (h[p := (h ! p)\<lparr>props := AList.update k (JArr (xs @ [x])) (props (h ! p))\<rparr>])"
  using assms by (simp add: js_push_def)

lemma js_push_prototype:
  assumes "p < length h" "prototype_shape (h ! p)" "proto (h ! p) = JArr xs"
  shows "js_push h p ''__proto__'' x = Inr (h[p := (h ! p)\<lparr>proto := JArr (xs @ [x])\<rparr>])"
proof -
  from element_member[OF assms(1,2), of "length h" "''__proto__''"]
  have "find_member (length h) h p ''__proto__'' = Inr (Some ProtoAccessor)" by auto
  moreover from assms(2) have "map_of (props (h ! p)) ''__proto__'' = None"
    by (simp add: prototype_shape_def)
  ultimately show ?thesis using assms by (simp add: js_push_def)
qed

lemma js_delete_absent:
  assumes "map_of (props (h ! p)) k = None"
  shows "js_delete h p k = h"
proof -
  from assms have "k \<notin> fst ` set (props (h ! p))" by (simp add: map_of_eq_None_iff)
  then show ?thesis by (simp add: js_delete_def)
qed

text \<open>Save the value, delete the property, assign a new array, push twice.\<close>

lemma promote:
  assumes p: "p < length h" and sh: "prototype_shape (h ! p)"
    and v: "\<not> is_array v" and x: "\<not> is_array x"
  shows "\<exists>ob. then_do (js_set (js_delete h p k) p k (JArr []))
                 (\<lambda>h1. then_do (js_push h1 p k v) (\<lambda>h2. js_push h2 p k x)) = Inr (h[p := ob]) \<and>
              prototype_shape ob \<and>
              (k \<noteq> ''attr'' \<longrightarrow> map_of (props ob) ''attr'' = map_of (props (h ! p)) ''attr'') \<and>
              (k = ''attr'' \<longrightarrow> map_of (props ob) ''attr'' = Some (JArr [v, x]))"
proof (cases "k = ''__proto__''")
  case True
  let ?ob = "\<lambda>ys. (h ! p)\<lparr>proto := JArr ys\<rparr>"
  from sh have own: "map_of (props (h ! p)) ''__proto__'' = None"
    by (simp add: prototype_shape_def)
  have shp: "prototype_shape (?ob ys)" if "\<forall>y \<in> set ys. \<not> is_array y" for ys
    using sh that by (simp add: prototype_shape_def)
  have "js_set (js_delete h p k) p k (JArr []) = Inr (h[p := ?ob []])"
    using True js_delete_absent[OF own] js_set_prototype[OF p sh, of "JArr []"]
    by (simp add: prototype_value_def)
  moreover have "js_push (h[p := ?ob []]) p k v = Inr (h[p := ?ob [v]])"
    using True p js_push_prototype[of p "h[p := ?ob []]" "[]" v] shp[of "[]"] by simp
  moreover have "js_push (h[p := ?ob [v]]) p k x = Inr (h[p := ?ob [v, x]])"
    using True p js_push_prototype[of p "h[p := ?ob [v]]" "[v]" x] shp[of "[v]"] v by simp
  ultimately show ?thesis
    using True shp[of "[v, x]"] v x by (auto simp: then_do_def)
next
  case False
  let ?ob = "\<lambda>ys. (h ! p)\<lparr>props := AList.update k (JArr ys) (AList.delete k (props (h ! p)))\<rparr>"
  have "js_set (js_delete h p k) p k (JArr []) = Inr (h[p := ?ob []])"
    using False p by (simp add: js_set_own js_delete_def)
  moreover have "js_push (h[p := ?ob []]) p k v = Inr (h[p := ?ob [v]])"
    using p js_push_own[of p "h[p := ?ob []]" k "[]" v] by (simp add: update_conv')
  moreover have "js_push (h[p := ?ob [v]]) p k x = Inr (h[p := ?ob [v, x]])"
    using p js_push_own[of p "h[p := ?ob [v]]" k "[v]" x] by (simp add: update_conv')
  moreover have "prototype_shape (?ob [v, x])"
    using sh False by (auto simp: prototype_shape_def update_conv' delete_conv')
  ultimately show ?thesis
    by (auto simp: then_do_def update_conv' delete_conv')
qed

subsection \<open>The shape is kept, and no event leaves the embedding\<close>

lemma new_element_shape: "element_shape (new_element n a)"
  by (simp add: element_shape_def prototype_shape_def new_element_def plain_def)

lemma shape_update:
  assumes "shape s" and "element_shape el" and "p < length (heap s)"
    and "0 < p \<Longrightarrow> element_shape ob"
    and "p = 0 \<Longrightarrow> map_of (props ob) ''__proto__'' = None \<and>
           (proto ob = JObjectPrototype \<or>
            (\<exists>q. proto ob = JRef q \<and> 0 < q \<and> q \<le> length (heap s)))"
    and "\<forall>q \<in> set st. 0 < q \<and> q \<le> length (heap s)"
  shows "shape (s\<lparr>heap := (heap s @ [el])[p := ob], elementsStack := st\<rparr>)"
proof -
  let ?h = "(heap s @ [el])[p := ob]"
  have len: "length ?h = Suc (length (heap s))" by simp
  have elems: "element_shape (?h ! c)" if "0 < c" "c < length ?h" for c
  proof (cases "c = p")
    case True
    with that assms(3,4) show ?thesis by simp
  next
    case False
    show ?thesis
    proof (cases "c < length (heap s)")
      case True
      with assms(1) that have "element_shape (heap s ! c)" by (simp add: shape_def)
      with True False show ?thesis by (simp add: nth_append)
    next
      case False
      with that have "c = length (heap s)" by simp
      with assms(2,3) show ?thesis by (simp add: nth_append)
    qed
  qed
  have root: "map_of (props (?h ! 0)) ''__proto__'' = None \<and>
              (proto (?h ! 0) = JObjectPrototype \<or>
               (\<exists>q. proto (?h ! 0) = JRef q \<and> 0 < q \<and> q < length ?h))"
  proof (cases "p = 0")
    case True
    with assms(3,5) show ?thesis by auto
  next
    case False
    with assms(1,3) have "?h ! 0 = heap s ! 0" by (simp add: nth_append shape_def)
    with assms(1) show ?thesis by (auto simp: shape_def)
  qed
  from assms(6) have "\<forall>q \<in> set st. 0 < q \<and> q < length ?h" by auto
  with elems root show ?thesis
    unfolding shape_def by (simp del: length_list_update length_append add: len)
qed

lemma root_accessor:
  assumes "shape s"
  shows "find_member (Suc (length (heap s))) (heap s @ [el]) 0 ''__proto__'' =
           Inr (Some ProtoAccessor)"
proof -
  let ?h = "heap s @ [el]"
  from assms have ne: "heap s \<noteq> []" and own: "map_of (props (heap s ! 0)) ''__proto__'' = None"
    by (simp_all add: shape_def)
  then have h0: "?h ! 0 = heap s ! 0" by (simp add: nth_append)
  from assms consider "proto (heap s ! 0) = JObjectPrototype"
    | q where "proto (heap s ! 0) = JRef q" "0 < q" "q < length (heap s)"
    by (auto simp: shape_def)
  then show ?thesis
  proof cases
    case 1
    with own h0 show ?thesis by (simp add: object_prototype_member_def)
  next
    case (2 q)
    with assms have "element_shape (heap s ! q)" by (simp add: shape_def)
    with 2 have "prototype_shape (?h ! q)" by (simp add: nth_append element_shape_def)
    from element_member[OF _ this, of "length (heap s)" "''__proto__''"] 2
    have "find_member (length (heap s)) ?h q ''__proto__'' = Inr (Some ProtoAccessor)"
      by auto
    with own h0 2 show ?thesis by simp
  qed
qed

lemma onopentag_shape:
  assumes sh: "shape s"
  shows "(\<exists>s'. onopentag n a s = Inr s' \<and> shape s' \<and> delivered s' = delivered s) \<or>
         onopentag n a s = Inl (TypeError, delivered s)"
proof (cases "props (heap s ! 0) = []")
  case True
  let ?a = "length (heap s)"
  let ?el = "new_element n a"
  let ?h = "heap s @ [?el]"
  from sh have ne: "heap s \<noteq> []" by (simp add: shape_def)
  then have h0: "?h ! 0 = heap s ! 0" and pos: "0 < ?a" by (simp_all add: nth_append)
  from sh have st: "\<forall>q \<in> set (?a # elementsStack s). 0 < q \<and> q \<le> ?a"
    using pos by (auto simp: shape_def)
  have "\<exists>ob. js_set ?h 0 n (JRef ?a) = Inr (?h[0 := ob]) \<and>
             map_of (props ob) ''__proto__'' = None \<and>
             (proto ob = JObjectPrototype \<or> (\<exists>q. proto ob = JRef q \<and> 0 < q \<and> q \<le> ?a))"
  proof (cases "n = ''__proto__''")
    case True
    with root_accessor[OF sh, of ?el] sh pos h0 show ?thesis
      by (auto simp: js_set_def prototype_value_def shape_def)
  next
    case False
    with sh h0 show ?thesis
      by (auto simp: js_set_def update_conv' shape_def)
  qed
  then obtain ob where ob: "js_set ?h 0 n (JRef ?a) = Inr (?h[0 := ob])"
    "map_of (props ob) ''__proto__'' = None \<and>
     (proto ob = JObjectPrototype \<or> (\<exists>q. proto ob = JRef q \<and> 0 < q \<and> q \<le> ?a))"
    by blast
  from shape_update[OF sh new_element_shape pos _ _ st, of ob n a] ob(2)
  have "shape (s\<lparr>heap := ?h[0 := ob], elementsStack := ?a # elementsStack s\<rparr>)" by simp
  with True ob(1) show ?thesis
    by (simp add: onopentag_def Let_def written_def)
next
  case False
  show ?thesis
  proof (cases "elementsStack s")
    case Nil
    with False show ?thesis by (simp add: onopentag_def Let_def)
  next
    case (Cons p rest)
    let ?a = "length (heap s)"
    let ?el = "new_element n a"
    let ?h = "heap s @ [?el]"
    let ?x = "JRef ?a"
    from sh Cons have p: "0 < p" "p < ?a" and es: "element_shape (heap s ! p)"
      by (auto simp: shape_def)
    then have ps: "prototype_shape (heap s ! p)" by (simp add: element_shape_def)
    from p have hp: "?h ! p = heap s ! p" and pl: "p < length ?h" by (simp_all add: nth_append)
    from sh Cons p have st: "\<forall>q \<in> set (?a # p # rest). 0 < q \<and> q \<le> ?a"
      by (auto simp: shape_def)
    from es have attr: "(\<exists>al. map_of (props (heap s ! p)) ''attr'' = Some (JAttrs al)) \<or>
        (\<exists>xs. map_of (props (heap s ! p)) ''attr'' = Some (JArr xs))"
      by (simp add: element_shape_def)
    from ps have own: "map_of (props (heap s ! p)) ''__proto__'' = None"
      by (simp add: prototype_shape_def)
    from element_member[OF p(2) ps, of ?a n] obtain m where
      m: "find_member ?a (heap s) p n = Inr m"
         "m = Some ProtoAccessor \<longleftrightarrow> n = ''__proto__''"
         "\<forall>v. m = Some (Data v) \<longrightarrow> map_of (props (heap s ! p)) n = Some v \<or>
                map_of (props (heap s ! p)) n = None \<and> \<not> is_array v"
         "m = None \<longrightarrow> map_of (props (heap s ! p)) n = None"
      by blast
    have concl: ?thesis
      if "js_in (heap s) n (JRef p) = Inr b"
        and "b \<Longrightarrow> \<exists>v. js_get (heap s) (JRef p) n = Inr v \<and>
               (if is_array v then js_push ?h p n ?x
                else then_do (js_set (js_delete ?h p n) p n (JArr []))
                       (\<lambda>h1. then_do (js_push h1 p n v) (\<lambda>h2. js_push h2 p n ?x))) =
               Inr (?h[p := ob])"
        and "\<not> b \<Longrightarrow> js_set ?h p n ?x = Inr (?h[p := ob])"
        and "element_shape ob" for b ob
    proof -
      from shape_update[OF sh new_element_shape p(2) _ _ st, of ob n a] that(4) p(1)
      have "shape (s\<lparr>heap := ?h[p := ob], elementsStack := ?a # p # rest\<rparr>)" by simp
      moreover have "onopentag n a s =
          Inr (s\<lparr>heap := ?h[p := ob], elementsStack := ?a # p # rest\<rparr>)"
      proof (cases b)
        case True
        with that(2) obtain v where "js_get (heap s) (JRef p) n = Inr v"
          "(if is_array v then js_push ?h p n ?x
            else then_do (js_set (js_delete ?h p n) p n (JArr []))
                   (\<lambda>h1. then_do (js_push h1 p n v) (\<lambda>h2. js_push h2 p n ?x))) =
           Inr (?h[p := ob])"
          by blast
        with True False Cons that(1) show ?thesis
          by (cases "is_array v") (simp_all add: onopentag_def Let_def written_def)
      next
        case False
        with that(1,3) \<open>props (heap s ! 0) \<noteq> []\<close> Cons show ?thesis
          by (simp add: onopentag_def Let_def written_def)
      qed
      ultimately show ?thesis by simp
    qed
    show ?thesis
    proof (cases m)
      case None
      with m(2) have np: "n \<noteq> ''__proto__''" by auto
      from None m(4) have absent: "map_of (props (heap s ! p)) n = None" by simp
      with attr have na: "n \<noteq> ''attr''" by auto
      let ?ob = "(heap s ! p)\<lparr>props := AList.update n ?x (props (heap s ! p))\<rparr>"
      have "element_shape ?ob"
        using es np na by (simp add: element_shape_def prototype_shape_def update_conv')
      moreover have "js_set ?h p n ?x = Inr (?h[p := ?ob])"
        using js_set_own[OF pl np, of ?x] hp by simp
      moreover have "js_in (heap s) n (JRef p) = Inr False"
        using m(1) None by simp
      ultimately show ?thesis using concl[of False ?ob] by simp
    next
      case (Some mm)
      have inn: "js_in (heap s) n (JRef p) = Inr True" using m(1) Some by simp
      have get: "js_get (heap s) (JRef p) n = Inr (member_value (proto (heap s ! p)) m)"
        using m(1) by simp
      let ?v = "member_value (proto (heap s ! p)) m"
      show ?thesis
      proof (cases "is_array ?v")
        case False
        from promote[OF pl _ False, of ?x n] ps hp obtain ob where
          ob: "then_do (js_set (js_delete ?h p n) p n (JArr []))
                 (\<lambda>h1. then_do (js_push h1 p n ?v) (\<lambda>h2. js_push h2 p n ?x)) = Inr (?h[p := ob])"
              "prototype_shape ob"
              "n \<noteq> ''attr'' \<longrightarrow> map_of (props ob) ''attr'' = map_of (props (heap s ! p)) ''attr''"
              "n = ''attr'' \<longrightarrow> map_of (props ob) ''attr'' = Some (JArr [?v, ?x])"
          by auto
        from ob(2,3,4) attr have "element_shape ob"
          by (cases "n = ''attr''") (auto simp: element_shape_def)
        with inn get ob(1) False show ?thesis
          using concl[of True ob] by simp
      next
        case True
        show ?thesis
        proof (cases mm)
          case ProtoAccessor
          with Some m(2) have np: "n = ''__proto__''" by simp
          from Some ProtoAccessor have "?v = proto (heap s ! p)"
            by (simp add: member_value_def)
          with True ps obtain xs where xs: "?v = JArr xs" and pr: "proto (heap s ! p) = JArr xs"
            by (auto simp: prototype_shape_def)
          let ?ob = "(heap s ! p)\<lparr>proto := JArr (xs @ [?x])\<rparr>"
          from ps pr have "\<forall>y \<in> set xs. \<not> is_array y" by (auto simp: prototype_shape_def)
          with es have "element_shape ?ob"
            by (simp add: element_shape_def prototype_shape_def)
          moreover have "js_push ?h p n ?x = Inr (?h[p := ?ob])"
            using js_push_prototype[OF pl _ _, of xs ?x] ps pr hp np by simp
          ultimately show ?thesis
            using concl[of True ?ob] inn get xs by simp
        next
          case (Data v)
          with Some have v: "?v = v" by (simp add: member_value_def)
          with m(3) Some Data True have ownv: "map_of (props (heap s ! p)) n = Some v"
            by auto
          with ps have "v \<noteq> JArrayPrototype" by (auto simp: prototype_shape_def)
          with True v obtain xs where xs: "?v = JArr xs" by (cases v) simp_all
          with v ownv have ownx: "map_of (props (heap s ! p)) n = Some (JArr xs)" by simp
          with own have np: "n \<noteq> ''__proto__''" by auto
          let ?ob = "(heap s ! p)\<lparr>props := AList.update n (JArr (xs @ [?x])) (props (heap s ! p))\<rparr>"
          have "element_shape ?ob"
            using es np by (auto simp: element_shape_def prototype_shape_def update_conv')
          moreover have "js_push ?h p n ?x = Inr (?h[p := ?ob])"
            using js_push_own[OF pl, of n xs ?x] ownx hp by simp
          ultimately show ?thesis
            using concl[of True ?ob] inn get xs by simp
        qed
      qed
    qed
  qed
qed

lemma innerText_shape:
  assumes sh: "shape s" and st: "elementsStack s = e # rest"
  shows "\<exists>ob. js_set (heap s) e ''innerText'' (JStr v) = Inr ((heap s)[e := ob]) \<and>
              shape (s\<lparr>heap := (heap s)[e := ob], elementsStack := e # rest\<rparr>)"
proof -
  let ?ob = "(heap s ! e)\<lparr>props := AList.update ''innerText'' (JStr v) (props (heap s ! e))\<rparr>"
  from sh st have e: "0 < e" "e < length (heap s)" and es: "element_shape (heap s ! e)"
    by (auto simp: shape_def)
  then have ob: "element_shape ?ob"
    by (simp add: element_shape_def prototype_shape_def update_conv')
  have "element_shape ((heap s)[e := ?ob] ! c)" if "0 < c" "c < length (heap s)" for c
    using that ob sh by (cases "c = e") (simp_all add: shape_def)
  with sh st e have "shape (s\<lparr>heap := (heap s)[e := ?ob], elementsStack := e # rest\<rparr>)"
    by (auto simp: shape_def)
  moreover have "js_set (heap s) e ''innerText'' (JStr v) = Inr ((heap s)[e := ?ob])"
    using e by (simp add: js_set_own)
  ultimately show ?thesis by blast
qed

lemma handle_shape:
  assumes "shape s"
  shows "(\<exists>s'. handle s ev = Inr s' \<and> shape s') \<or>
         handle s ev = Inl (TypeError, delivered s)"
proof (cases ev)
  case (OpenTag n a)
  with onopentag_shape[OF assms, of n a] show ?thesis by auto
next
  case (Text t)
  show ?thesis
  proof (cases "elementsStack s")
    case Nil
    with Text show ?thesis by (simp add: ontext_def)
  next
    case (Cons e rest)
    from innerText_shape[OF assms Cons, of t] Text Cons show ?thesis
      by (auto simp: ontext_def written_def)
  qed
next
  case CDataStart
  with assms show ?thesis by (simp add: onopencdata_def shape_def)
next
  case (CDataChunk t)
  with assms show ?thesis by (simp add: oncdata_def shape_def)
next
  case CDataEnd
  show ?thesis
  proof (cases "elementsStack s")
    case Nil
    with CDataEnd show ?thesis by (simp add: onclosecdata_def)
  next
    case (Cons e rest)
    from assms have "shape (s\<lparr>cdata := []\<rparr>)" by (simp add: shape_def)
    from innerText_shape[OF this, of e rest "cdata s"] CDataEnd Cons show ?thesis
      by (auto simp: onclosecdata_def written_def)
  qed
next
  case CloseTag
  with assms show ?thesis
    by (cases "elementsStack s") (simp_all add: onclosetag_def shape_def)
next
  case End
  with assms show ?thesis by (simp add: onend_def shape_def)
next
  case (Error x)
  with assms show ?thesis by (simp add: onerror_def)
qed

lemma run_shape:
  assumes "shape s"
  shows "(\<exists>s'. run s evs = Inr s' \<and> shape s') \<or> (\<exists>d. run s evs = Inl (TypeError, d))"
  using assms
proof (induction evs arbitrary: s)
  case Nil
  then show ?case by simp
next
  case (Cons ev evs)
  from handle_shape[OF Cons.prems, of ev] show ?case
  proof
    assume "\<exists>s'. handle s ev = Inr s' \<and> shape s'"
    then obtain s' where s': "handle s ev = Inr s'" "shape s'" by blast
    from Cons.IH[OF s'(2)] s'(1) show ?thesis by simp
  next
    assume "handle s ev = Inl (TypeError, delivered s)"
    then show ?thesis by simp
  qed
qed

lemma shape_init: "shape init"
  by (simp add: shape_def init_def plain_def)

text \<open>
  No sequence of events takes \<open>parse\<close> out of the embedding: a call ends with a state or
  with a \<open>TypeError\<close>.
\<close>

lemma run_init_modelled: "run init evs \<noteq> Inl (Unmodelled, d)"
  using run_shape[OF shape_init, of evs] by auto

lemma run_init_shape: "run init evs = Inr s \<Longrightarrow> shape s"
  using run_shape[OF shape_init, of evs] by auto

lemma oncdata_run:
  "run s (map CDataChunk chunks) = Inr (s\<lparr>cdata := cdata s @ concat chunks\<rparr>)"
  by (induction chunks arbitrary: s) (simp_all add: oncdata_def)

section \<open>The claims\<close>

text \<open>
  C1. The claim fails in the code for a repeated child whose tag name the parent already
  answers to. \<open>onopentag\<close> tests \<open>tagName in parentElement\<close>, which also finds the
  parent's own fields and the members it inherits, where its comment speaks of an element
  with the same name that already exists in the parent. For \<open><a><name/><name/></a>\<close> the
  key \<open>name\<close> of \<open>a\<close> ends as a sequence of three entries, the first being the string
  \<open>"a"\<close>; for \<open><a><constructor/><constructor/></a>\<close> the first entry is the inherited
  built-in; and for \<open><a><__proto__/><push/><push/></a>\<close>, where the first child makes
  an array the prototype of \<open>a\<close>, the first entry is the \<open>push\<close> that \<open>a\<close> inherits
  from then on.
\<close>

theorem repeated_children_own_field:
  "delivered_trees (run init [OpenTag ''a'' [], OpenTag ''name'' [], CloseTag,
                              OpenTag ''name'' [], CloseTag, CloseTag, End]) =
     [Some (TObj [(''a'',
        TObj [(''attr'', TObj []),
              (''name'', TArr [TStr ''a'',
                               TObj [(''name'', TStr ''name''), (''attr'', TObj [])],
                               TObj [(''name'', TStr ''name''), (''attr'', TObj [])]])])])]
   \<and> delivered_trees (run init [OpenTag ''a'' [], OpenTag ''constructor'' [], CloseTag,
                                OpenTag ''constructor'' [], CloseTag, CloseTag, End]) =
     [Some (TObj [(''a'',
        TObj [(''name'', TStr ''a''), (''attr'', TObj []),
              (''constructor'', TArr [TBuiltin ''constructor'',
                               TObj [(''name'', TStr ''constructor''), (''attr'', TObj [])],
                               TObj [(''name'', TStr ''constructor''), (''attr'', TObj [])]])])])]
   \<and> delivered_trees (run init [OpenTag ''a'' [], OpenTag ''__proto__'' [], CloseTag,
                                OpenTag ''push'' [], CloseTag, OpenTag ''push'' [], CloseTag,
                                CloseTag, End]) =
     [Some (TObj [(''a'',
        TObj [(''name'', TStr ''a''), (''attr'', TObj []),
              (''push'', TArr [TBuiltin ''push'',
                               TObj [(''name'', TStr ''push''), (''attr'', TObj [])],
                               TObj [(''name'', TStr ''push''), (''attr'', TObj [])]])])])]"
  by (simp add: delivered_trees_def callbacks_def init_def handler_defs object_defs Let_def)

text \<open>
  C2. The claim fails in the code for \<open><a><name/></a>\<close>, a well-formed document with a
  single root and no repeated sibling: \<open>'name' in parentElement\<close> holds because of the
  parent's own field \<open>name\<close>, and the lone child is stored in the sequence
  \<open>["a", node]\<close>.
\<close>

theorem lone_child_own_field:
  "delivered_trees (run init [OpenTag ''a'' [], OpenTag ''name'' [], CloseTag, CloseTag, End]) =
     [Some (TObj [(''a'',
        TObj [(''attr'', TObj []),
              (''name'', TArr [TStr ''a'',
                               TObj [(''name'', TStr ''name''), (''attr'', TObj [])]])])])]"
  by (simp add: delivered_trees_def callbacks_def init_def handler_defs object_defs Let_def)

text \<open>
  C3 (amended). The text event and the end of a CDATA section both overwrite
  \<open>innerText\<close> of the element on top of the stack, so the one handled last wins. For any
  state with an element \<open>e\<close> on top of the stack, any text \<open>t\<close> and any CDATA section
  reported in the pieces \<open>chunks\<close>: after the text followed by the section, \<open>innerText\<close>
  of \<open>e\<close> is the concatenation of the pieces; after the section followed by the text it
  is the text. In both orders the stack is as before, \<open>cdata\<close> is empty again, and no
  other property and no other object is changed. For the two documents of the claim:
  \<open><a>drop<![CDATA[keep]]></a>\<close> ends with the CDATA content and
  \<open><a><![CDATA[keep]]>drop</a>\<close> with the plain text.
\<close>

theorem last_of_text_and_cdata_wins:
  assumes "elementsStack s = e # rest" and "e < length (heap s)"
  shows "\<exists>s1 s2.
           run s (Text t # CDataStart # map CDataChunk chunks @ [CDataEnd]) = Inr s1 \<and>
           run s (CDataStart # map CDataChunk chunks @ [CDataEnd, Text t]) = Inr s2 \<and>
           map_of (props (heap s1 ! e)) ''innerText'' = Some (JStr (concat chunks)) \<and>
           map_of (props (heap s2 ! e)) ''innerText'' = Some (JStr t) \<and>
           elementsStack s1 = e # rest \<and> elementsStack s2 = e # rest \<and>
           cdata s1 = [] \<and> cdata s2 = [] \<and>
           delivered s1 = delivered s \<and> delivered s2 = delivered s \<and>
           length (heap s1) = length (heap s) \<and> length (heap s2) = length (heap s) \<and>
           proto (heap s1 ! e) = proto (heap s ! e) \<and>
           proto (heap s2 ! e) = proto (heap s ! e) \<and>
           (\<forall>k. k \<noteq> ''innerText'' \<longrightarrow>
                map_of (props (heap s1 ! e)) k = map_of (props (heap s ! e)) k \<and>
                map_of (props (heap s2 ! e)) k = map_of (props (heap s ! e)) k) \<and>
           (\<forall>q. q \<noteq> e \<longrightarrow> heap s1 ! q = heap s ! q \<and> heap s2 ! q = heap s ! q) \<and>
           delivered_trees (run init (text_then_cdata t c)) =
             [Some (TObj [(''a'', TObj [(''name'', TStr ''a''), (''attr'', TObj []),
                                        (''innerText'', TStr c)])])] \<and>
           delivered_trees (run init (cdata_then_text c t)) =
             [Some (TObj [(''a'', TObj [(''name'', TStr ''a''), (''attr'', TObj []),
                                        (''innerText'', TStr t)])])]"
proof -
  let ?set = "\<lambda>h v. h[e := (h ! e)\<lparr>props := AList.update ''innerText'' v (props (h ! e))\<rparr>]"
  let ?h1 = "?set (?set (heap s) (JStr t)) (JStr (concat chunks))"
  let ?h2 = "?set (?set (heap s) (JStr (concat chunks))) (JStr t)"
  let ?s1 = "s\<lparr>heap := ?h1, elementsStack := e # rest, cdata := []\<rparr>"
  let ?s2 = "s\<lparr>heap := ?h2, elementsStack := e # rest, cdata := []\<rparr>"
  have set: "js_set h e ''innerText'' v = Inr (?set h v)" if "length h = length (heap s)" for h v
    using that assms(2) by (simp add: js_set_own)
  have "run s (Text t # CDataStart # map CDataChunk chunks @ [CDataEnd]) = Inr ?s1"
    using assms by (simp add: run_append oncdata_run ontext_def onopencdata_def
        onclosecdata_def written_def set)
  moreover
  have "run s (CDataStart # map CDataChunk chunks @ [CDataEnd, Text t]) = Inr ?s2"
    using assms by (simp add: run_append oncdata_run ontext_def onopencdata_def
        onclosecdata_def written_def set)
  moreover
  have "delivered_trees (run init (text_then_cdata t c)) =
          [Some (TObj [(''a'', TObj [(''name'', TStr ''a''), (''attr'', TObj []),
                                     (''innerText'', TStr c)])])]"
    by (simp add: text_then_cdata_def delivered_trees_def callbacks_def init_def
        handler_defs object_defs Let_def)
  moreover
  have "delivered_trees (run init (cdata_then_text c t)) =
          [Some (TObj [(''a'', TObj [(''name'', TStr ''a''), (''attr'', TObj []),
                                     (''innerText'', TStr t)])])]"
    by (simp add: cdata_then_text_def delivered_trees_def callbacks_def init_def
        handler_defs object_defs Let_def)
  ultimately show ?thesis
    using assms(2) by (intro exI[of _ ?s1] exI[of _ ?s2]) (simp add: update_conv')
qed

text \<open>
  The theorem in the state after \<open><a><b x="1">\<close>, for the element \<open>b\<close> at address 2, the
  text \<open>drop\<close> and a CDATA section reported as \<open>ke\<close> and \<open>ep\<close>.
\<close>

theorem last_of_text_and_cdata_wins_witness:
  "run init [OpenTag ''a'' [], OpenTag ''b'' [(''x'', ''1'')]] =
     Inr \<lparr>heap = [plain [(''a'', JRef 1)],
                  plain [(''name'', JStr ''a''), (''attr'', JAttrs []), (''b'', JRef 2)],
                  plain [(''name'', JStr ''b''), (''attr'', JAttrs [(''x'', ''1'')])]],
          elementsStack = [2, 1], cdata = [], delivered = []\<rparr>
   \<and> (\<exists>s1 s2.
        run \<lparr>heap = [plain [(''a'', JRef 1)],
                     plain [(''name'', JStr ''a''), (''attr'', JAttrs []), (''b'', JRef 2)],
                     plain [(''name'', JStr ''b''), (''attr'', JAttrs [(''x'', ''1'')])]],
             elementsStack = [2, 1], cdata = [], delivered = []\<rparr>
          [Text ''drop'', CDataStart, CDataChunk ''ke'', CDataChunk ''ep'', CDataEnd] = Inr s1 \<and>
        run \<lparr>heap = [plain [(''a'', JRef 1)],
                     plain [(''name'', JStr ''a''), (''attr'', JAttrs []), (''b'', JRef 2)],
                     plain [(''name'', JStr ''b''), (''attr'', JAttrs [(''x'', ''1'')])]],
             elementsStack = [2, 1], cdata = [], delivered = []\<rparr>
          [CDataStart, CDataChunk ''ke'', CDataChunk ''ep'', CDataEnd, Text ''drop''] = Inr s2 \<and>
        map_of (props (heap s1 ! 2)) ''innerText'' = Some (JStr ''keep'') \<and>
        map_of (props (heap s2 ! 2)) ''innerText'' = Some (JStr ''drop'') \<and>
        map_of (props (heap s1 ! 2)) ''attr'' = Some (JAttrs [(''x'', ''1'')]) \<and>
        heap s2 ! 1 = plain [(''name'', JStr ''a''), (''attr'', JAttrs []), (''b'', JRef 2)])"
proof -
  let ?s = "\<lparr>heap = [plain [(''a'', JRef 1)],
                     plain [(''name'', JStr ''a''), (''attr'', JAttrs []), (''b'', JRef 2)],
                     plain [(''name'', JStr ''b''), (''attr'', JAttrs [(''x'', ''1'')])]],
             elementsStack = [2, 1], cdata = [], delivered = []\<rparr>"
  have r: "run init [OpenTag ''a'' [], OpenTag ''b'' [(''x'', ''1'')]] = Inr ?s"
    by (simp add: init_def handler_defs object_defs Let_def)
  have st: "elementsStack ?s = 2 # [1]" and le: "2 < length (heap ?s)" by simp_all
  from last_of_text_and_cdata_wins[OF st le, of "''drop''" "[''ke'', ''ep'']"]
  obtain s1 s2 where
    "run ?s [Text ''drop'', CDataStart, CDataChunk ''ke'', CDataChunk ''ep'', CDataEnd] = Inr s1"
    "run ?s [CDataStart, CDataChunk ''ke'', CDataChunk ''ep'', CDataEnd, Text ''drop''] = Inr s2"
    "map_of (props (heap s1 ! 2)) ''innerText'' = Some (JStr ''keep'')"
    "map_of (props (heap s2 ! 2)) ''innerText'' = Some (JStr ''drop'')"
    "\<forall>k. k \<noteq> ''innerText'' \<longrightarrow>
         map_of (props (heap s1 ! 2)) k = map_of (props (heap ?s ! 2)) k \<and>
         map_of (props (heap s2 ! 2)) k = map_of (props (heap ?s ! 2)) k"
    "\<forall>q. q \<noteq> 2 \<longrightarrow> heap s1 ! q = heap ?s ! q \<and> heap s2 ! q = heap ?s ! q"
    by (simp del: run.simps) blast
  moreover from this(5) have "map_of (props (heap s1 ! 2)) ''attr'' = Some (JAttrs [(''x'', ''1'')])"
    by (simp add: plain_def)
  moreover from \<open>\<forall>q. q \<noteq> 2 \<longrightarrow> heap s1 ! q = heap ?s ! q \<and> heap s2 ! q = heap ?s ! q\<close>
  have "heap s2 ! 1 = plain [(''name'', JStr ''a''), (''attr'', JAttrs []), (''b'', JRef 2)]"
    by simp
  ultimately show ?thesis using r by blast
qed

text \<open>
  The claim as written fails for \<open><a><![CDATA[keep]]>drop</a>\<close>: the final
  \<open>innerText\<close> is \<open>"drop"\<close>.
\<close>

theorem cdata_then_text_counterexample:
  "delivered_trees (run init (cdata_then_text ''keep'' ''drop'')) =
     [Some (TObj [(''a'', TObj [(''name'', TStr ''a''), (''attr'', TObj []),
                                (''innerText'', TStr ''drop'')])])]
   \<and> TStr ''drop'' \<noteq> TStr ''keep''"
  by (simp add: cdata_then_text_def delivered_trees_def callbacks_def
      init_def handler_defs object_defs Let_def)

text \<open>
  C4. The claim fails in the code for an element that receives a child element named
  \<open>attr\<close>: the child collides with the field, \<open>'attr' in parentElement\<close> holds, and the
  later open-tag event replaces the captured attribute map by a sequence. For
  \<open><a x="1"><attr/></a>\<close> the \<open>attr\<close> of \<open>a\<close> is \<open>{x: "1"}\<close> after the open tag of \<open>a\<close>
  and the sequence \<open>[{x: "1"}, node]\<close> in the finished tree.
\<close>

theorem attr_replaced_by_child:
  "(\<exists>s. run init [OpenTag ''a'' [(''x'', ''1'')]] = Inr s \<and>
        map_of (props (heap s ! 1)) ''attr'' = Some (JAttrs [(''x'', ''1'')]))
   \<and> (\<exists>s. run init [OpenTag ''a'' [(''x'', ''1'')], OpenTag ''attr'' [], CloseTag, CloseTag, End]
          = Inr s \<and>
        map_of (props (heap s ! 1)) ''attr'' = Some (JArr [JAttrs [(''x'', ''1'')], JRef 2]))
   \<and> delivered_trees (run init [OpenTag ''a'' [(''x'', ''1'')], OpenTag ''attr'' [], CloseTag,
                                CloseTag, End]) =
     [Some (TObj [(''a'',
        TObj [(''name'', TStr ''a''),
              (''attr'', TArr [TObj [(''x'', TStr ''1'')],
                               TObj [(''name'', TStr ''attr''), (''attr'', TObj [])]])])])]"
  by (simp add: delivered_trees_def callbacks_def init_def handler_defs object_defs Let_def)

text \<open>
  C5. For the document \<open><a x="1"><b>hi</b><b>bye</b></a>\<close>, whose events are
  \<open>roundtrip_events\<close>, \<open>parse\<close> completes and hands to its callback, once, the tree
  \<open>{a: {name: "a", attr: {x: "1"}, b: [{name: "b", attr: {}, innerText: "hi"},
  {name: "b", attr: {}, innerText: "bye"}]}}\<close>.
\<close>

theorem roundtrip:
  assumes "sax roundtrip_source = roundtrip_events"
  shows "completes (parse sax roundtrip_source) \<and>
         delivered_trees (parse sax roundtrip_source) =
           [Some (TObj [(''a'',
              TObj [(''name'', TStr ''a''), (''attr'', TObj [(''x'', TStr ''1'')]),
                    (''b'', TArr [TObj [(''name'', TStr ''b''), (''attr'', TObj []),
                                        (''innerText'', TStr ''hi'')],
                                  TObj [(''name'', TStr ''b''), (''attr'', TObj []),
                                        (''innerText'', TStr ''bye'')]])])])]"
  using assms
  by (simp add: parse_def roundtrip_events_def completes_def delivered_trees_def callbacks_def
      init_def handler_defs object_defs Let_def)

text \<open>The theorem for a lexer that emits these events.\<close>

theorem roundtrip_witness:
  "completes (parse (\<lambda>xmlSource. roundtrip_events) roundtrip_source) \<and>
   delivered_trees (parse (\<lambda>xmlSource. roundtrip_events) roundtrip_source) =
     [Some (TObj [(''a'',
        TObj [(''name'', TStr ''a''), (''attr'', TObj [(''x'', TStr ''1'')]),
              (''b'', TArr [TObj [(''name'', TStr ''b''), (''attr'', TObj []),
                                  (''innerText'', TStr ''hi'')],
                            TObj [(''name'', TStr ''b''), (''attr'', TObj []),
                                  (''innerText'', TStr ''bye'')]])])])]"
  using roundtrip[of "\<lambda>xmlSource. roundtrip_events"] by simp

text \<open>
  C6. For every element of every store that a call of \<open>parse\<close> builds (the elements are
  the objects at the addresses from 1 on; address 0 is \<open>jsonObj\<close>), both revisions of
  \<open>getElementText\<close> return the \<open>innerText\<close> property when the element has one;
  otherwise the value of the attribute \<open>text\<close> when the element's \<open>attr\<close> is an
  attribute map that has it; otherwise the absent value (\<open>undefined\<close>, and \<open>null\<close> in
  \<open>src/index.js\<close>).
\<close>

theorem getElementText_finished:
  assumes "run init evs = Inr s" and "0 < c" and "c < length (heap s)"
  shows "(\<forall>v. map_of (props (heap s ! c)) ''innerText'' = Some v \<longrightarrow>
            getElementText (heap s) (JRef c) = Inr v \<and>
            getElementText_src (heap s) (JRef c) = Inr v)
       \<and> (\<forall>al x. map_of (props (heap s ! c)) ''innerText'' = None \<and>
                  map_of (props (heap s ! c)) ''attr'' = Some (JAttrs al) \<and>
                  map_of al ''text'' = Some x \<longrightarrow>
            getElementText (heap s) (JRef c) = Inr (JStr x) \<and>
            getElementText_src (heap s) (JRef c) = Inr (JStr x))
       \<and> (map_of (props (heap s ! c)) ''innerText'' = None \<and>
          (\<forall>al. map_of (props (heap s ! c)) ''attr'' = Some (JAttrs al) \<longrightarrow>
                map_of al ''text'' = None) \<longrightarrow>
            getElementText (heap s) (JRef c) = Inr JUndefined \<and>
            getElementText_src (heap s) (JRef c) = Inr JNull)"
proof -
  let ?h = "heap s"
  let ?ob = "?h ! c"
  from run_init_shape[OF assms(1)] assms(2,3) have es: "element_shape ?ob"
    by (simp add: shape_def)
  then have ps: "prototype_shape ?ob" by (simp add: element_shape_def)
  have ai: "array_index ''text'' = None" "array_index ''innerText'' = None"
    by (simp_all add: array_index_def)
  have inh: "builtin_lookup (proto ?ob) k = Inr None"
    if "k = ''innerText'' \<or> k = ''attr''" for k
    using ps that ai
    by (auto simp: prototype_shape_def array_member_def array_prototype_member_def
        object_prototype_member_def Object_prototype_keys_def Array_prototype_keys_def
        array_index_def)
  have fm: "find_member n ?h c k =
      (case map_of (props ?ob) k of Some v \<Rightarrow> Inr (Some (Data v)) | None \<Rightarrow> Inr None)"
    if "k = ''innerText'' \<or> k = ''attr''" for n k
    using find_member_direct[OF assms(3) prototype_shape_no_ref[OF ps], of n k] inh[OF that]
    by (simp split: option.splits)
  from es consider al where "map_of (props ?ob) ''attr'' = Some (JAttrs al)"
    | xs where "map_of (props ?ob) ''attr'' = Some (JArr xs)"
    by (auto simp: element_shape_def)
  then show ?thesis
  proof cases
    case 1
    then show ?thesis
      by (cases "map_of (props ?ob) ''innerText''"; cases "map_of al ''text''")
         (simp_all add: getElementText_def getElementText_src_def fm member_value_def
            attrs_member_def object_prototype_member_def Object_prototype_keys_def)
  next
    case 2
    then show ?thesis
      by (cases "map_of (props ?ob) ''innerText''")
         (simp_all add: getElementText_def getElementText_src_def fm member_value_def ai
            array_member_def array_prototype_member_def object_prototype_member_def
            Object_prototype_keys_def Array_prototype_keys_def)
  qed
qed

text \<open>
  The theorem at \<open><a text="t"><__proto__>hi</__proto__></a>\<close>: for the element \<open>a\<close>
  at address 1, which has no \<open>innerText\<close> and the attribute \<open>text\<close>, and whose prototype
  the child has replaced; and for the child at address 2, which has the \<open>innerText\<close>.
\<close>

theorem getElementText_finished_witness:
  "run init [OpenTag ''a'' [(''text'', ''t'')], OpenTag ''__proto__'' [], Text ''hi'',
             CloseTag, CloseTag, End] =
     Inr \<lparr>heap =
            [plain [(''a'', JRef 1)],
             \<lparr>props = [(''name'', JStr ''a''), (''attr'', JAttrs [(''text'', ''t'')])],
              proto = JArr [JObjectPrototype, JRef 2]\<rparr>,
             plain [(''name'', JStr ''__proto__''), (''attr'', JAttrs []),
                    (''innerText'', JStr ''hi'')]],
          elementsStack = [], cdata = [],
          delivered =
            [[plain [(''a'', JRef 1)],
              \<lparr>props = [(''name'', JStr ''a''), (''attr'', JAttrs [(''text'', ''t'')])],
               proto = JArr [JObjectPrototype, JRef 2]\<rparr>,
              plain [(''name'', JStr ''__proto__''), (''attr'', JAttrs []),
                     (''innerText'', JStr ''hi'')]]]\<rparr>
   \<and> getElementText
        [plain [(''a'', JRef 1)],
         \<lparr>props = [(''name'', JStr ''a''), (''attr'', JAttrs [(''text'', ''t'')])],
          proto = JArr [JObjectPrototype, JRef 2]\<rparr>,
         plain [(''name'', JStr ''__proto__''), (''attr'', JAttrs []),
                (''innerText'', JStr ''hi'')]]
        (JRef 1) = Inr (JStr ''t'')
   \<and> getElementText_src
        [plain [(''a'', JRef 1)],
         \<lparr>props = [(''name'', JStr ''a''), (''attr'', JAttrs [(''text'', ''t'')])],
          proto = JArr [JObjectPrototype, JRef 2]\<rparr>,
         plain [(''name'', JStr ''__proto__''), (''attr'', JAttrs []),
                (''innerText'', JStr ''hi'')]]
        (JRef 2) = Inr (JStr ''hi'')"
proof -
  let ?evs = "[OpenTag ''a'' [(''text'', ''t'')], OpenTag ''__proto__'' [], Text ''hi'',
               CloseTag, CloseTag, End]"
  let ?h = "[plain [(''a'', JRef 1)],
             \<lparr>props = [(''name'', JStr ''a''), (''attr'', JAttrs [(''text'', ''t'')])],
              proto = JArr [JObjectPrototype, JRef 2]\<rparr>,
             plain [(''name'', JStr ''__proto__''), (''attr'', JAttrs []),
                    (''innerText'', JStr ''hi'')]]"
  have r: "run init ?evs = Inr \<lparr>heap = ?h, elementsStack = [], cdata = [], delivered = [?h]\<rparr>"
    by (simp add: init_def handler_defs object_defs Let_def)
  from getElementText_finished[OF r, of 1] getElementText_finished[OF r, of 2] r
  show ?thesis by (simp add: plain_def)
qed

text \<open>
  C7. The claim fails in the code for a key that names a member inherited from
  \<open>Object.prototype\<close>. \<open>getElementAttr\<close> tests \<open>attr in element.attr\<close>, and the
  operator \<open>in\<close> looks through the prototype chain, where the accessor is documented to
  return the value of the element's attribute. On a node with \<open>attr: {}\<close> the key
  \<open>constructor\<close> is not in the map, and both revisions return the inherited built-in
  instead of the absent value. For the keys of the claim they answer as it says: absent
  for \<open>missing\<close> on \<open>attr: {}\<close>, and the empty string for \<open>present\<close> on
  \<open>attr: {present: ""}\<close>.
\<close>

theorem getElementAttr_inherited_member:
  "map_of ([] :: (string \<times> string) list) ''constructor'' = None
   \<and> getElementAttr [plain [(''name'', JStr ''a''), (''attr'', JAttrs [])]] (JRef 0)
       ''constructor'' = Inr (JBuiltin ''constructor'')
   \<and> getElementAttr_src [plain [(''name'', JStr ''a''), (''attr'', JAttrs [])]] (JRef 0)
       ''constructor'' = Inr (JBuiltin ''constructor'')
   \<and> getElementAttr [plain [(''name'', JStr ''a''), (''attr'', JAttrs [])]] (JRef 0)
       ''missing'' = Inr JUndefined
   \<and> getElementAttr_src [plain [(''name'', JStr ''a''), (''attr'', JAttrs [])]] (JRef 0)
       ''missing'' = Inr JNull
   \<and> getElementAttr [plain [(''name'', JStr ''a''), (''attr'', JAttrs [(''present'', [])])]]
       (JRef 0) ''present'' = Inr (JStr [])
   \<and> getElementAttr_src [plain [(''name'', JStr ''a''), (''attr'', JAttrs [(''present'', [])])]]
       (JRef 0) ''present'' = Inr (JStr [])"
  by (simp add: getElementAttr_def getElementAttr_src_def object_defs)

text \<open>
  C8 (amended). For every argument that is \<open>undefined\<close>, \<open>null\<close> or not of type
  \<open>object\<close> (a string, a number, a boolean, a function), both accessors with the guard
  return \<open>undefined\<close> and do not fail.
\<close>

theorem accessors_guard:
  assumes "element = JUndefined \<or> element = JNull \<or> typeof element \<noteq> ''object''"
  shows "getElementAttr h element attr = Inr JUndefined \<and>
         getElementText h element = Inr JUndefined"
  using assms by (simp add: getElementAttr_def getElementText_def)

theorem accessors_guard_witness:
  "getElementAttr [] JNull ''x'' = Inr JUndefined \<and> getElementText [] JNull = Inr JUndefined
   \<and> getElementAttr [] (JStr ''a'') ''x'' = Inr JUndefined
   \<and> getElementText [] (JStr ''a'') = Inr JUndefined"
  using accessors_guard[of JNull "[]" "''x''"] accessors_guard[of "JStr ''a''" "[]" "''x''"]
  by simp

text \<open>
  The claim as written fails for an object without an \<open>attr\<close> field, here the empty
  object: it passes the guard and \<open>attr in element.attr\<close> is a \<open>TypeError\<close>. The
  accessors of \<open>src/index.js\<close> fail on \<open>null\<close> as well.
\<close>

theorem accessors_object_without_attr_counterexample:
  "getElementAttr [plain []] (JRef 0) ''x'' = Inl TypeError
   \<and> getElementText [plain []] (JRef 0) = Inl TypeError
   \<and> getElementAttr_src [plain []] JNull ''x'' = Inl TypeError
   \<and> getElementText_src [plain []] JNull = Inl TypeError"
  by (simp add: getElementAttr_def getElementText_def getElementAttr_src_def
      getElementText_src_def object_defs)

text \<open>
  C9. When the read of the file fails, \<open>parseFromFile\<close> throws an error that carries the
  cause and the callback is not called; the callback is called only when the read has
  succeeded.
\<close>

theorem parseFromFile_read_error:
  "(readFile filePath = ReadError error \<longrightarrow>
      parseFromFile readFile sax filePath = Inl (Thrown (''An error occurred: '' @ error), []) \<and>
      callbacks (parseFromFile readFile sax filePath) = [])
   \<and> (callbacks (parseFromFile readFile sax filePath) \<noteq> [] \<longrightarrow>
      (\<exists>data. readFile filePath = ReadData data))"
  by (cases "readFile filePath") (simp_all add: parseFromFile_def callbacks_def)

theorem parseFromFile_read_error_witness:
  "parseFromFile (\<lambda>filePath. ReadError ''ENOENT'') (\<lambda>xmlSource. [End]) ''missing.xml'' =
     Inl (Thrown ''An error occurred: ENOENT'', [])
   \<and> callbacks (parseFromFile (\<lambda>filePath. ReadError ''ENOENT'') (\<lambda>xmlSource. [End])
        ''missing.xml'') = []"
  using parseFromFile_read_error
          [of "\<lambda>filePath. ReadError ''ENOENT''" "''missing.xml''" "''ENOENT''"
              "\<lambda>xmlSource. [End]"]
  by (simp add: callbacks_def)

text \<open>
  C10 (amended). For a sequence of events with no open-tag event, no text event and no
  end of a CDATA section, closed by the end event (the events of the empty string are
  the end event alone), the call completes and calls the callback exactly once, with a
  \<open>jsonObj\<close> that has no keys.
\<close>

theorem no_element_events:
  assumes "\<forall>e \<in> set body. inert e"
  shows "completes (run init (body @ [End])) \<and>
         callbacks (run init (body @ [End])) = [[plain []]] \<and>
         delivered_trees (run init (body @ [End])) = [Some (TObj [])]"
proof -
  from inert_run[OF assms, of init] obtain s' where
    s': "run init body = Inr s'" "heap s' = [plain []]" "delivered s' = []"
    by (auto simp: init_def)
  then show ?thesis
    by (simp add: run_append onend_def completes_def callbacks_def delivered_trees_def plain_def)
qed

theorem no_element_events_witness:
  "completes (run init [End]) \<and> callbacks (run init [End]) = [[plain []]] \<and>
   delivered_trees (run init [End]) = [Some (TObj [])]"
  using no_element_events[of "[]"] by simp

text \<open>
  The claim as written fails for the events of the document \<open>hello\<close>, a text event
  and the end event: \<open>ontext\<close> finds no element on the stack, the call stops with a
  \<open>TypeError\<close> and the callback is not called.
\<close>

theorem text_without_element_counterexample:
  "run init [Text ''hello'', End] = Inl (TypeError, [])
   \<and> \<not> completes (run init [Text ''hello'', End])
   \<and> callbacks (run init [Text ''hello'', End]) = []"
  by (simp add: init_def handler_defs completes_def callbacks_def)

end
